theory Spec2Isabelle
  imports Complex_Main
begin

section \<open>Numbers of the source language\<close>

text \<open>
  The evaluator of \<^verbatim>\<open>SphericalHarmonicsVisualization\<close> computes on JavaScript numbers.
  They are modelled as mathematical reals together with one extra value \<open>NaN\<close>, which
  is what \<^verbatim>\<open>Math.sqrt\<close> returns on a negative argument and what every arithmetic
  operation returns as soon as one operand is \<open>NaN\<close>. Rounding and overflow of IEEE
  doubles are not modelled: every finite result is the exact real.

  Degree, order and the loop counters are integers (the contract of the evaluator; the
  sliders of the page produce nothing else) and are modelled as \<open>int\<close>; \<open>I k\<close> reads
  an integer as a number where the source mixes it into real arithmetic.
\<close>

datatype number = Num real | NaN

abbreviation I :: "int \<Rightarrow> number" where
  "I k \<equiv> Num (real_of_int k)"

instantiation number :: "{plus, minus, uminus, times, inverse}"
begin

definition plus_number :: "number \<Rightarrow> number \<Rightarrow> number" where
  "plus_number a b = (case a of NaN \<Rightarrow> NaN | Num u \<Rightarrow> (case b of NaN \<Rightarrow> NaN | Num v \<Rightarrow> Num (u + v)))"

definition minus_number :: "number \<Rightarrow> number \<Rightarrow> number" where
  "minus_number a b = (case a of NaN \<Rightarrow> NaN | Num u \<Rightarrow> (case b of NaN \<Rightarrow> NaN | Num v \<Rightarrow> Num (u - v)))"

definition uminus_number :: "number \<Rightarrow> number" where
  "uminus_number a = (case a of NaN \<Rightarrow> NaN | Num u \<Rightarrow> Num (- u))"

definition times_number :: "number \<Rightarrow> number \<Rightarrow> number" where
  "times_number a b = (case a of NaN \<Rightarrow> NaN | Num u \<Rightarrow> (case b of NaN \<Rightarrow> NaN | Num v \<Rightarrow> Num (u * v)))"

text \<open>
  The divisors of the program are \<open>ll - m\<close> with \<open>ll \<ge> m + 2\<close>, \<open>4\<pi>\<close> times a
  factorial, and the literal \<open>2\<close>: none is zero. The infinities a zero divisor would give
  in the source are outside the model; the quotient is \<open>NaN\<close> there.
\<close>

definition divide_number :: "number \<Rightarrow> number \<Rightarrow> number" where
  "divide_number a b = (case a of NaN \<Rightarrow> NaN | Num u \<Rightarrow>
     (case b of NaN \<Rightarrow> NaN | Num v \<Rightarrow> (if v = 0 then NaN else Num (u / v))))"

text \<open>The class that carries the notation of \<open>/\<close> asks for a reciprocal as well.\<close>

definition inverse_number :: "number \<Rightarrow> number" where
  "inverse_number a = divide (Num 1) a"

instance ..

end

text \<open>\<^verbatim>\<open>Math.sqrt\<close>, \<^verbatim>\<open>Math.cos\<close>, \<^verbatim>\<open>Math.min\<close> and \<^verbatim>\<open>Math.max\<close>.\<close>

definition Math_sqrt :: "number \<Rightarrow> number" where
  "Math_sqrt a = (case a of NaN \<Rightarrow> NaN | Num u \<Rightarrow> (if u < 0 then NaN else Num (sqrt u)))"

definition Math_cos :: "number \<Rightarrow> number" where
  "Math_cos a = (case a of NaN \<Rightarrow> NaN | Num u \<Rightarrow> Num (cos u))"

definition Math_min :: "number \<Rightarrow> number \<Rightarrow> number" where
  "Math_min a b = (case a of NaN \<Rightarrow> NaN | Num u \<Rightarrow> (case b of NaN \<Rightarrow> NaN | Num v \<Rightarrow> Num (min u v)))"

definition Math_max :: "number \<Rightarrow> number \<Rightarrow> number" where
  "Math_max a b = (case a of NaN \<Rightarrow> NaN | Num u \<Rightarrow> (case b of NaN \<Rightarrow> NaN | Num v \<Rightarrow> Num (max u v)))"

section \<open>Associated Legendre polynomial\<close>

text \<open>
  The loop \<^verbatim>\<open>for (let i = 1; i <= m; i++) { pmm *= -fact * somx2; fact += 2.0; }\<close>
  of \<^verbatim>\<open>calculateLegendreP\<close>, returning the final \<open>pmm\<close> (the variables \<open>fact\<close> and,
  below, \<open>real\<close> of the source are primed: both names are constants of HOL).
\<close>

function pmm_loop :: "int \<Rightarrow> number \<Rightarrow> int \<Rightarrow> number \<Rightarrow> number \<Rightarrow> number" where
  "pmm_loop m somx2 i pmm fact' =
     (if i \<le> m then pmm_loop m somx2 (i + 1) (pmm * (- fact' * somx2)) (fact' + Num 2)
      else pmm)"
  by pat_completeness auto
termination
  by (relation "measure (\<lambda>(m, somx2, i, pmm, fact'). nat (m + 1 - i))") auto

text \<open>
  The loop \<^verbatim>\<open>for (let ll = m + 2; ll <= l; ll++) { pll = ...; pmm = pmmp1; pmmp1 = pll; }\<close>,
  returning the final \<open>pll\<close>.
\<close>

function pll_loop :: "int \<Rightarrow> int \<Rightarrow> number \<Rightarrow> int \<Rightarrow> number \<Rightarrow> number \<Rightarrow> number \<Rightarrow> number" where
  "pll_loop l m x ll pmm pmmp1 pll =
     (if ll \<le> l then
        (let pll' = (x * I (2 * ll - 1) * pmmp1 - I (ll + m - 1) * pmm) / I (ll - m)
         in pll_loop l m x (ll + 1) pmmp1 pll' pll')
      else pll)"
  by pat_completeness auto
termination
  by (relation "measure (\<lambda>(l, m, x, ll, pmm, pmmp1, pll). nat (l + 1 - ll))") auto

definition calculateLegendreP :: "int \<Rightarrow> int \<Rightarrow> number \<Rightarrow> number" where
  "calculateLegendreP l m x =
     (if m < 0 \<or> m > l then Num 0
      else if l = 0 then Num 1
      else
        let somx2 = Math_sqrt ((Num 1 - x) * (Num 1 + x));
            pmm = pmm_loop m somx2 1 (Num 1) (Num 1)
        in if l = m then pmm
           else
             let pmmp1 = x * I (2 * m + 1) * pmm
             in if l = m + 1 then pmmp1
                else pll_loop l m x (m + 2) pmm pmmp1 (Num 0))"

section \<open>Spherical harmonic value\<close>

function factorial :: "int \<Rightarrow> int" where
  "factorial n = (if n \<le> 1 then 1 else n * factorial (n - 1))"
  by pat_completeness auto
termination
  by (relation "measure nat") auto

definition calculateYlm :: "int \<Rightarrow> int \<Rightarrow> number \<Rightarrow> number \<Rightarrow> number" where
  "calculateYlm l m theta phi =
     (let cosTheta = Math_cos theta;
          norm = Math_sqrt ((I (2 * l + 1) * I (factorial (l - \<bar>m\<bar>))) /
                            (Num 4 * Num pi * I (factorial (l + \<bar>m\<bar>))));
          legendre = calculateLegendreP l \<bar>m\<bar> cosTheta;
          real' = Math_cos (I m * phi);
          mSign = (if m < 0 then (if \<bar>m\<bar> mod 2 = 0 then 1 else - 1) else 1)
      in norm * legendre * real' * I mSign)"

subsection \<open>The call stack of \<open>factorial\<close>\<close>

text \<open>
  \<open>factorial\<close> above is the value the recursion of the source returns. The source recursion
  is not a tail call: \<^verbatim>\<open>factorial(n)\<close> holds one stack frame for each of \<open>n, n - 1, \<dots>, 1\<close>,
  and the engine raises \<^verbatim>\<open>RangeError\<close> when the frames run out. \<open>factorial_stack d\<close> is the
  same recursion with \<open>d\<close> frames left for it; how many there are depends on the engine and
  is a parameter. \<open>calculateYlm_stack d\<close> is \<open>calculateYlm\<close> with its two calls of
  \<open>factorial\<close>, in the order of the source, made on that stack: an exception raised by
  either ends the call, before \<open>calculateLegendreP\<close> tests the range of the order.
\<close>

datatype error = RangeError

fun factorial_stack :: "nat \<Rightarrow> int \<Rightarrow> error + int" where
  "factorial_stack 0 n = Inl RangeError"
| "factorial_stack (Suc d) n =
     (if n \<le> 1 then Inr 1
      else (case factorial_stack d (n - 1) of Inl e \<Rightarrow> Inl e | Inr v \<Rightarrow> Inr (n * v)))"

definition calculateYlm_stack :: "nat \<Rightarrow> int \<Rightarrow> int \<Rightarrow> number \<Rightarrow> number \<Rightarrow> error + number" where
  "calculateYlm_stack d l m theta phi =
     (let cosTheta = Math_cos theta
      in case factorial_stack d (l - \<bar>m\<bar>) of Inl e \<Rightarrow> Inl e | Inr f1 \<Rightarrow>
         (case factorial_stack d (l + \<bar>m\<bar>) of Inl e \<Rightarrow> Inl e | Inr f2 \<Rightarrow>
            (let norm = Math_sqrt ((I (2 * l + 1) * I f1) / (Num 4 * Num pi * I f2));
                 legendre = calculateLegendreP l \<bar>m\<bar> cosTheta;
                 real' = Math_cos (I m * phi);
                 mSign = (if m < 0 then (if \<bar>m\<bar> mod 2 = 0 then 1 else - 1) else 1)
             in Inr (norm * legendre * real' * I mSign))))"

section \<open>Colour mapping\<close>

text \<open>
  \<^verbatim>\<open>valueToColor\<close> hands three numbers to \<^verbatim>\<open>setHSL\<close> of the rendering library; the
  model returns those three numbers.
\<close>

record hsl =
  hue :: number
  saturation :: number
  lightness :: number

definition valueToColor :: "number \<Rightarrow> hsl" where
  "valueToColor v =
     (let normalized = (Math_max (Num (- 1)) (Math_min (Num 1) v) + Num 1) / Num 2
      in \<lparr>hue = Num 0.8 - normalized * Num 0.7,
          saturation = Num 0.8,
          lightness = Num 0.3 + normalized * Num 0.4\<rparr>)"

section \<open>Arithmetic of numbers\<close>

declare pmm_loop.simps [simp del]
declare pll_loop.simps [simp del]
declare factorial.simps [simp del]

lemma Num_plus [simp]: "Num u + Num v = Num (u + v)"
  by (simp add: plus_number_def)

lemma Num_minus [simp]: "Num u - Num v = Num (u - v)"
  by (simp add: minus_number_def)

lemma Num_uminus [simp]: "- Num u = Num (- u)"
  by (simp add: uminus_number_def)

lemma Num_times [simp]: "Num u * Num v = Num (u * v)"
  by (simp add: times_number_def)

lemma Num_divide [simp]: "v \<noteq> 0 \<Longrightarrow> Num u / Num v = Num (u / v)"
  by (simp add: divide_number_def)

lemma NaN_times [simp]: "NaN * a = NaN" "a * NaN = NaN"
  by (simp_all add: times_number_def split: number.splits)

lemma Math_sqrt_Num [simp]: "0 \<le> u \<Longrightarrow> Math_sqrt (Num u) = Num (sqrt u)"
  by (simp add: Math_sqrt_def)

lemma Math_sqrt_negative [simp]: "u < 0 \<Longrightarrow> Math_sqrt (Num u) = NaN"
  by (simp add: Math_sqrt_def)

lemma Math_cos_Num [simp]: "Math_cos (Num u) = Num (cos u)"
  by (simp add: Math_cos_def)

lemma Math_min_Num [simp]: "Math_min (Num u) (Num v) = Num (min u v)"
  by (simp add: Math_min_def)

lemma Math_max_Num [simp]: "Math_max (Num u) (Num v) = Num (max u v)"
  by (simp add: Math_max_def)

text \<open>A sign factor at the end of a product can be moved to its front, \<open>NaN\<close> or not.\<close>

lemma mult_sign_number: "a * b * Num c * I s = Num (real_of_int s) * (a * b * Num c * I 1)"
  by (cases a; cases b) (simp_all add: times_number_def)

section \<open>The two loops\<close>

lemma pmm_loop_zero: "pmm_loop 0 s 1 p f = p"
  by (subst pmm_loop.simps) simp

lemma pmm_loop_once: "pmm_loop 1 s 1 p f = p * (- f * s)"
  by (simp add: pmm_loop.simps [of 1 s 1] pmm_loop.simps [of 1 s 2])

lemma int_interval_first: "i \<le> m \<Longrightarrow> {i..m} = insert i {i + 1..m}" for i m :: int
  by auto

text \<open>
  Invariant of the seed loop: entered at counter \<open>i\<close> with \<open>fact = 2i - 1\<close>, it multiplies
  \<open>pmm\<close> by the factors \<open>-(2k - 1) \<cdot> somx2\<close> for \<open>k = i, \<dots>, m\<close>.
\<close>

lemma pmm_loop_prod:
  "somx2 = Num s \<Longrightarrow> pmm = Num p \<Longrightarrow> fact' = Num (2 * real_of_int i - 1) \<Longrightarrow>
   pmm_loop m somx2 i pmm fact' = Num (p * (\<Prod>k = i..m. - (2 * real_of_int k - 1) * s))"
proof (induction m somx2 i pmm fact' arbitrary: p rule: pmm_loop.induct)
  case (1 m somx2 i pmm fact')
  show ?case
  proof (cases "i \<le> m")
    case True
    have "pmm_loop m somx2 (i + 1) (pmm * (- fact' * somx2)) (fact' + Num 2) =
          Num (p * (- (2 * real_of_int i - 1) * s) * (\<Prod>k = i + 1..m. - (2 * real_of_int k - 1) * s))"
      using "1.prems" by (intro "1.IH" [OF True]) simp_all
    moreover have "(\<Prod>k = i..m. - (2 * real_of_int k - 1) * s) =
          (- (2 * real_of_int i - 1) * s) * (\<Prod>k = i + 1..m. - (2 * real_of_int k - 1) * s)"
      by (simp add: int_interval_first [OF True])
    ultimately show ?thesis
      using True by (subst pmm_loop.simps) (simp add: mult.assoc)
  next
    case False
    then show ?thesis
      using "1.prems" by (subst pmm_loop.simps) simp
  qed
qed

lemma prod_seed:
  "0 \<le> m \<Longrightarrow>
   (\<Prod>k = 1..m. - (2 * real_of_int k - 1) * s) = (\<Prod>k = 1..m. - (2 * real_of_int k - 1)) * s ^ nat m"
  by (simp add: prod.distrib)

lemma somx2_Num:
  "- 1 \<le> x \<Longrightarrow> x \<le> 1 \<Longrightarrow> Math_sqrt (Num ((1 - x) * (1 + x))) = Num (sqrt (1 - x\<^sup>2))"
proof -
  assume a: "- 1 \<le> x" "x \<le> 1"
  have e: "(1 - x) * (1 + x) = 1 - x\<^sup>2" by (simp add: power2_eq_square algebra_simps)
  have "0 \<le> (1 - x) * (1 + x)" using a by simp
  then show ?thesis using e by simp
qed

lemma somx2_cos:
  "Math_sqrt (Num ((1 - cos t) * (1 + cos t))) = Num (sqrt ((1 - cos t) * (1 + cos t)))"
proof -
  have "0 \<le> 1 - cos t" "0 \<le> 1 + cos t"
    using cos_le_one [of t] cos_ge_minus_one [of t] by linarith+
  then have "0 \<le> (1 - cos t) * (1 + cos t)" by (rule mult_nonneg_nonneg)
  then show ?thesis by simp
qed

lemma pll_loop_done: "l < ll \<Longrightarrow> pll_loop l m x ll a b c = c"
  by (subst pll_loop.simps) simp

lemma pll_loop_step:
  "ll \<le> l \<Longrightarrow>
   pll_loop l m x ll a b c =
   pll_loop l m x (ll + 1) b ((x * I (2 * ll - 1) * b - I (ll + m - 1) * a) / I (ll - m))
     ((x * I (2 * ll - 1) * b - I (ll + m - 1) * a) / I (ll - m))"
  by (subst pll_loop.simps) (simp add: Let_def)

text \<open>
  What the recurrence loop returns when it stops at \<open>l\<close>, in terms of what it returns when
  it stops one and two rounds earlier: after one round, after two rounds, and after more.
\<close>

lemma pll_loop_first:
  "l = ll \<Longrightarrow>
   pll_loop l m x ll a b c = (x * I (2 * l - 1) * b - I (l + m - 1) * a) / I (l - m)"
  by (simp add: pll_loop_step pll_loop_done)

lemma pll_loop_second:
  "l = ll + 1 \<Longrightarrow>
   pll_loop l m x ll a b c =
   (x * I (2 * l - 1) * pll_loop (l - 1) m x ll a b c - I (l + m - 1) * b) / I (l - m)"
  by (simp add: pll_loop_step pll_loop_done)

lemma pll_loop_last:
  "ll + 2 \<le> l \<Longrightarrow>
   pll_loop l m x ll a b c =
   (x * I (2 * l - 1) * pll_loop (l - 1) m x ll a b c
      - I (l + m - 1) * pll_loop (l - 2) m x ll a b c) / I (l - m)"
proof (induction l m x ll a b c rule: pll_loop.induct)
  case (1 l m x ll a b c)
  let ?p = "(x * I (2 * ll - 1) * b - I (ll + m - 1) * a) / I (ll - m)"
  have le: "ll \<le> l" "ll \<le> l - 1" "ll \<le> l - 2" using "1.prems" by simp_all
  have u: "pll_loop l m x ll a b c = pll_loop l m x (ll + 1) b ?p ?p"
          "pll_loop (l - 1) m x ll a b c = pll_loop (l - 1) m x (ll + 1) b ?p ?p"
          "pll_loop (l - 2) m x ll a b c = pll_loop (l - 2) m x (ll + 1) b ?p ?p"
    using le by (simp_all only: pll_loop_step)
  show ?case
  proof (cases "ll + 1 + 2 \<le> l")
    case True
    show ?thesis
      unfolding u by (rule "1.IH" [OF le(1) refl True])
  next
    case False
    then have l: "l = ll + 1 + 1" using "1.prems" by simp
    have d: "pll_loop (l - 2) m x (ll + 1) b ?p ?p = ?p"
      using l by (simp add: pll_loop_done)
    show ?thesis
      unfolding u d by (rule pll_loop_second [OF l])
  qed
qed

text \<open>At \<open>x = 1\<close> and order \<open>0\<close> every round of the recurrence loop yields \<open>1\<close> again.\<close>

lemma pll_loop_at_one:
  "m = 0 \<Longrightarrow> x = Num 1 \<Longrightarrow> pmm = Num 1 \<Longrightarrow> pmmp1 = Num 1 \<Longrightarrow> 1 \<le> ll \<Longrightarrow>
   pll_loop l m x ll pmm pmmp1 pll = (if ll \<le> l then Num 1 else pll)"
proof (induction l m x ll pmm pmmp1 pll rule: pll_loop.induct)
  case (1 l m x ll pmm pmmp1 pll)
  show ?case
  proof (cases "ll \<le> l")
    case True
    have step: "(Num 1 * I (2 * ll - 1) * Num 1 - I (ll + 0 - 1) * Num 1) / I (ll - 0) = Num 1"
      using \<open>1 \<le> ll\<close> by simp
    have "pll_loop l 0 (Num 1) (ll + 1) (Num 1) (Num 1) (Num 1) = Num 1"
      using "1.IH" [OF True refl] "1.prems" step by simp
    then show ?thesis
      using True "1.prems" step by (subst pll_loop.simps) simp
  next
    case False
    then show ?thesis by (subst pll_loop.simps) simp
  qed
qed

section \<open>Factorial and normalisation\<close>

lemma factorial_base: "n \<le> 1 \<Longrightarrow> factorial n = 1"
  by (subst factorial.simps) simp

lemma factorial_3: "factorial 3 = 6"
  by (simp add: factorial.simps)

lemma factorial_pos: "0 < factorial n"
proof (induction n rule: factorial.induct)
  case (1 n)
  show ?case
  proof (cases "n \<le> 1")
    case True
    then show ?thesis by (simp add: factorial_base)
  next
    case False
    then have "0 < n * factorial (n - 1)" using "1.IH" by simp
    then show ?thesis using False by (subst factorial.simps) simp
  qed
qed

text \<open>For a degree \<open>l \<ge> 0\<close> the argument of the normalisation's square root is not negative.\<close>

lemma norm_Num:
  "0 \<le> l \<Longrightarrow>
   Math_sqrt ((I (2 * l + 1) * I (factorial a)) / (Num 4 * Num pi * I (factorial b))) =
   Num (sqrt (real_of_int ((2 * l + 1) * factorial a) / (4 * pi * real_of_int (factorial b))))"
proof -
  assume l: "0 \<le> l"
  have a: "0 < real_of_int (factorial a)" and b: "0 < real_of_int (factorial b)"
    using factorial_pos by simp_all
  have nz: "4 * pi * real_of_int (factorial b) \<noteq> 0" using b by simp
  have "0 \<le> real_of_int ((2 * l + 1) * factorial a) / (4 * pi * real_of_int (factorial b))"
    using l a b by (intro divide_nonneg_nonneg mult_nonneg_nonneg) simp_all
  then show ?thesis using nz by simp
qed

text \<open>
  With enough frames the bounded recursion returns the value of \<open>factorial\<close>; with fewer
  than \<open>n\<close> it raises.
\<close>

lemma factorial_stack_enough:
  "0 < d \<Longrightarrow> n \<le> int d \<Longrightarrow> factorial_stack d n = Inr (factorial n)"
proof (induction d arbitrary: n)
  case 0
  then show ?case by simp
next
  case (Suc d)
  show ?case
  proof (cases "n \<le> 1")
    case True
    then show ?thesis by (simp add: factorial_base)
  next
    case False
    then have "0 < d" "n - 1 \<le> int d" using Suc.prems by simp_all
    then have "factorial_stack d (n - 1) = Inr (factorial (n - 1))" by (rule Suc.IH)
    then show ?thesis using False by (simp add: factorial.simps [of n])
  qed
qed

lemma factorial_stack_overflow: "int d < n \<Longrightarrow> factorial_stack d n = Inl RangeError"
proof (induction d arbitrary: n)
  case 0
  then show ?case by simp
next
  case (Suc d)
  then have "\<not> n \<le> 1" "int d < n - 1" by simp_all
  then show ?case using Suc.IH [of "n - 1"] by simp
qed

lemma ylm_stack_value:
  "0 < d \<Longrightarrow> l + \<bar>m\<bar> \<le> int d \<Longrightarrow>
   calculateYlm_stack d l m theta phi = Inr (calculateYlm l m theta phi)"
proof -
  assume d: "0 < d" and le: "l + \<bar>m\<bar> \<le> int d"
  have "l - \<bar>m\<bar> \<le> int d" using le by simp
  then have f1: "factorial_stack d (l - \<bar>m\<bar>) = Inr (factorial (l - \<bar>m\<bar>))"
    using d by (intro factorial_stack_enough)
  have f2: "factorial_stack d (l + \<bar>m\<bar>) = Inr (factorial (l + \<bar>m\<bar>))"
    using d le by (intro factorial_stack_enough)
  show ?thesis
    unfolding calculateYlm_stack_def calculateYlm_def Let_def f1 f2 by simp
qed

lemma ylm_stack_raises:
  "int d < l + \<bar>m\<bar> \<Longrightarrow> calculateYlm_stack d l m theta phi = Inl RangeError"
proof -
  assume gt: "int d < l + \<bar>m\<bar>"
  have f2: "factorial_stack d (l + \<bar>m\<bar>) = Inl RangeError"
    using gt by (rule factorial_stack_overflow)
  show ?thesis
  proof (cases "factorial_stack d (l - \<bar>m\<bar>)")
    case (Inl e)
    have "e = RangeError" by (cases e) simp
    then show ?thesis unfolding calculateYlm_stack_def Let_def Inl by simp
  next
    case (Inr v)
    show ?thesis unfolding calculateYlm_stack_def Let_def Inr f2 by simp
  qed
qed

text \<open>The value for an order out of range: the Legendre factor is \<open>0\<close>, the rest is a number.\<close>

lemma ylm_value_out_of_range:
  "0 \<le> l \<Longrightarrow> l < \<bar>m\<bar> \<Longrightarrow> calculateYlm l m (Num theta) (Num phi) = Num 0"
proof -
  assume l: "0 \<le> l" and m: "l < \<bar>m\<bar>"
  have leg: "calculateLegendreP l \<bar>m\<bar> (Num (cos theta)) = Num 0"
    using m by (simp add: calculateLegendreP_def)
  show ?thesis
    unfolding calculateYlm_def Let_def Math_cos_Num leg norm_Num [OF l] by simp
qed

section \<open>Degree 2, order \<open>\<plusminus>1\<close> in closed form\<close>

lemma legendre_2_1:
  "calculateLegendreP 2 1 (Num (cos t)) = Num (- (3 * cos t * sqrt ((1 - cos t) * (1 + cos t))))"
  by (simp add: calculateLegendreP_def Let_def somx2_cos pmm_loop_once)

lemma norm_2_1:
  "Math_sqrt ((I (2 * 2 + 1) * I (factorial (2 - 1))) / (Num 4 * Num pi * I (factorial (2 + 1)))) =
   Num (sqrt (5 / (24 * pi)))"
  by (simp add: factorial_base factorial_3)

lemma ylm_2_1:
  "calculateYlm 2 1 (Num theta) (Num phi) =
   Num (- (sqrt (5 / (24 * pi)) * (3 * cos theta * sqrt ((1 - cos theta) * (1 + cos theta))) * cos phi))"
  using norm_2_1 by (simp add: calculateYlm_def Let_def legendre_2_1)

lemma ylm_2_neg1:
  "calculateYlm 2 (- 1) (Num theta) (Num phi) =
   Num (sqrt (5 / (24 * pi)) * (3 * cos theta * sqrt ((1 - cos theta) * (1 + cos theta))) * cos phi)"
  using norm_2_1 by (simp add: calculateYlm_def Let_def legendre_2_1)

text \<open>
  Outside \<open>[-1, 1]\<close> the square root of the seed is \<open>NaN\<close> and, for an order \<open>m \<ge> 1\<close>, so
  is the result: the interval in the contract of \<open>calculateLegendreP\<close> matters.
\<close>

lemma legendre_outside_interval: "calculateLegendreP 1 1 (Num 2) = NaN"
  by (simp add: calculateLegendreP_def Let_def pmm_loop_once)

section \<open>Properties of the associated Legendre polynomial\<close>

text \<open>
  C1. For every order \<open>m \<ge> 0\<close>, every degree \<open>l \<ge> m + 2\<close> and every real \<open>x\<close>, the value
  \<open>calculateLegendreP l m x\<close> satisfies the three-term recurrence
  \<open>P l = (x (2l - 1) P (l - 1) - (l + m - 1) P (l - 2)) / (l - m)\<close>, where \<open>P (l - 1)\<close> and
  \<open>P (l - 2)\<close> are the values the function itself returns at the two lower degrees: the loop
  over \<open>ll\<close> from \<open>m + 2\<close> to \<open>l\<close> computes this recurrence from the seeds \<open>P m\<close> and
  \<open>P (m + 1)\<close>. (For \<open>\<bar>x\<bar> > 1\<close> and \<open>m \<ge> 1\<close> both sides are \<open>NaN\<close>.)
\<close>

theorem legendre_recurrence:
  "0 \<le> m \<Longrightarrow> m + 2 \<le> l \<Longrightarrow>
   calculateLegendreP l m (Num x) =
   (Num x * I (2 * l - 1) * calculateLegendreP (l - 1) m (Num x)
      - I (l + m - 1) * calculateLegendreP (l - 2) m (Num x)) / I (l - m)"
proof -
  assume m: "0 \<le> m" and l: "m + 2 \<le> l"
  define somx2 where "somx2 = Math_sqrt ((Num 1 - Num x) * (Num 1 + Num x))"
  define pmm where "pmm = pmm_loop m somx2 1 (Num 1) (Num 1)"
  define pmmp1 where "pmmp1 = Num x * I (2 * m + 1) * pmm"
  have loop: "calculateLegendreP k m (Num x) = pll_loop k m (Num x) (m + 2) pmm pmmp1 (Num 0)"
    if "m + 2 \<le> k" for k
    using that m by (simp add: calculateLegendreP_def Let_def somx2_def pmm_def pmmp1_def)
  have p1: "calculateLegendreP k m (Num x) = pmmp1" if "k = m + 1" for k
    using that m by (simp add: calculateLegendreP_def Let_def somx2_def pmm_def pmmp1_def)
  have p0: "calculateLegendreP k m (Num x) = pmm" if "k = m" for k
    using that m
    by (cases "m = 0")
      (simp_all add: calculateLegendreP_def Let_def somx2_def pmm_def pmm_loop_zero)
  consider "l = m + 2" | "l = m + 2 + 1" | "m + 2 + 2 \<le> l" using l by linarith
  then show ?thesis
  proof cases
    case 1
    have q1: "calculateLegendreP (l - 1) m (Num x) = pmmp1" using 1 by (intro p1) simp
    have q0: "calculateLegendreP (l - 2) m (Num x) = pmm" using 1 by (intro p0) simp
    show ?thesis
      unfolding loop [OF l] q1 q0 by (rule pll_loop_first [OF 1])
  next
    case 2
    have q1: "calculateLegendreP (l - 1) m (Num x) =
        pll_loop (l - 1) m (Num x) (m + 2) pmm pmmp1 (Num 0)"
      using 2 by (intro loop) simp
    have q0: "calculateLegendreP (l - 2) m (Num x) = pmmp1" using 2 by (intro p1) simp
    show ?thesis
      unfolding loop [OF l] q1 q0 by (rule pll_loop_second [OF 2])
  next
    case 3
    have q1: "calculateLegendreP (l - 1) m (Num x) =
        pll_loop (l - 1) m (Num x) (m + 2) pmm pmmp1 (Num 0)"
      using 3 by (intro loop) simp
    have q0: "calculateLegendreP (l - 2) m (Num x) =
        pll_loop (l - 2) m (Num x) (m + 2) pmm pmmp1 (Num 0)"
      using 3 by (intro loop) simp
    show ?thesis
      unfolding loop [OF l] q1 q0 by (rule pll_loop_last [OF 3])
  qed
qed

theorem legendre_recurrence_witness:
  "calculateLegendreP 2 0 (Num (1 / 2)) =
     (Num (1 / 2) * I 3 * calculateLegendreP 1 0 (Num (1 / 2))
        - I 1 * calculateLegendreP 0 0 (Num (1 / 2))) / I 2
   \<and> calculateLegendreP 2 0 (Num (1 / 2)) = Num (- 1 / 8)"
  using legendre_recurrence [of 0 2 "1 / 2"]
  by (simp add: calculateLegendreP_def pmm_loop_zero)

text \<open>
  C2. For every order \<open>m \<ge> 1\<close> and every real \<open>x\<close> in \<open>[-1, 1]\<close>,
  \<open>calculateLegendreP m m x\<close> is the seed \<open>(\<Prod>i = 1..m. -(2i - 1)) \<cdot> sqrt (1 - x\<^sup>2) ^ m\<close>;
  in particular \<open>calculateLegendreP 1 1 0.5 = - sqrt 0.75\<close>.
\<close>

theorem legendre_seed:
  "(1 \<le> m \<and> - 1 \<le> x \<and> x \<le> 1 \<longrightarrow>
      calculateLegendreP m m (Num x) =
      Num ((\<Prod>i = 1..m. - (2 * real_of_int i - 1)) * sqrt (1 - x\<^sup>2) ^ nat m))
   \<and> calculateLegendreP 1 1 (Num 0.5) = Num (- sqrt 0.75)"
proof -
  have seed: "calculateLegendreP m m (Num x) =
      Num ((\<Prod>i = 1..m. - (2 * real_of_int i - 1)) * sqrt (1 - x\<^sup>2) ^ nat m)"
    if m: "1 \<le> m" and x: "- 1 \<le> x" "x \<le> 1" for m x
  proof -
    have a: "calculateLegendreP m m (Num x) =
        pmm_loop m (Num (sqrt (1 - x\<^sup>2))) 1 (Num 1) (Num 1)"
      using m by (simp add: calculateLegendreP_def Let_def somx2_Num [OF x])
    have b: "pmm_loop m (Num (sqrt (1 - x\<^sup>2))) 1 (Num 1) (Num 1) =
        Num (1 * (\<Prod>k = 1..m. - (2 * real_of_int k - 1) * sqrt (1 - x\<^sup>2)))"
      by (rule pmm_loop_prod) simp_all
    have c: "(\<Prod>k = 1..m. - (2 * real_of_int k - 1) * sqrt (1 - x\<^sup>2)) =
        (\<Prod>k = 1..m. - (2 * real_of_int k - 1)) * sqrt (1 - x\<^sup>2) ^ nat m"
      using m by (intro prod_seed) simp
    show ?thesis unfolding a b c by simp
  qed
  have "calculateLegendreP 1 1 (Num 0.5) =
      Num ((\<Prod>i = 1..(1::int). - (2 * real_of_int i - 1)) * sqrt (1 - 0.5\<^sup>2) ^ nat 1)"
    by (rule seed) simp_all
  moreover have "1 - (0.5::real)\<^sup>2 = 0.75" by (simp add: power2_eq_square)
  ultimately have "calculateLegendreP 1 1 (Num 0.5) = Num (- sqrt 0.75)" by simp
  then show ?thesis using seed by blast
qed

theorem legendre_seed_witness: "calculateLegendreP 2 2 (Num 0) = Num 3"
  using legendre_seed [of 2 0] by (simp add: int_interval_first)

text \<open>
  C3. For every degree \<open>l \<ge> 0\<close>, \<open>calculateLegendreP l 0 1 = 1\<close>.
\<close>

theorem legendre_at_one: "0 \<le> l \<Longrightarrow> calculateLegendreP l 0 (Num 1) = Num 1"
  by (simp add: calculateLegendreP_def pmm_loop_zero pll_loop_at_one Let_def)

theorem legendre_at_one_witness: "calculateLegendreP 5 0 (Num 1) = Num 1"
  using legendre_at_one [of 5] by simp

text \<open>
  C7. For every degree \<open>l \<ge> 0\<close>, every order \<open>m\<close> with \<open>m < 0\<close> or \<open>m > l\<close> and every
  real \<open>x\<close>, \<open>calculateLegendreP l m x\<close> is \<open>0\<close>: the first test of the function returns
  before anything is computed.
\<close>

theorem legendre_out_of_range:
  "0 \<le> l \<Longrightarrow> m < 0 \<or> m > l \<Longrightarrow> calculateLegendreP l m (Num x) = Num 0"
  by (simp add: calculateLegendreP_def)

theorem legendre_out_of_range_witness:
  "calculateLegendreP 2 (- 1) (Num (1 / 2)) = Num 0 \<and> calculateLegendreP 2 3 (Num (1 / 2)) = Num 0"
proof -
  have a: "(0::int) \<le> 2" by simp
  have b: "(- 1::int) < 0 \<or> (- 1::int) > 2" by simp
  have c: "(3::int) < 0 \<or> (3::int) > 2" by simp
  show ?thesis
    using legendre_out_of_range [OF a b, of "1 / 2"] legendre_out_of_range [OF a c, of "1 / 2"]
    by simp
qed

section \<open>Properties of the spherical harmonic value\<close>

text \<open>
  C4. For all real \<open>theta\<close> and \<open>phi\<close>, \<open>calculateYlm 0 0 theta phi\<close> is the constant
  \<open>1 / sqrt (4\<pi>)\<close>.
\<close>

theorem ylm_0_0: "calculateYlm 0 0 (Num theta) (Num phi) = Num (1 / sqrt (4 * pi))"
  by (simp add: calculateYlm_def calculateLegendreP_def factorial_base real_sqrt_divide)

text \<open>
  C5, as the code has it. The sign factor of \<open>calculateYlm\<close> is \<open>-1\<close> for the order \<open>-1\<close>
  and \<open>1\<close> for the order \<open>1\<close>, and nothing else differs between the two calls, so for all
  real \<open>theta\<close> and \<open>phi\<close> the value at \<open>(2, -1)\<close> is the negative of the value at \<open>(2, 1)\<close>.
  The two are equal only where both are \<open>0\<close>; at \<open>theta = \<pi>/3\<close>, \<open>phi = 0\<close> they are not.
\<close>

theorem ylm_2_1_negated:
  "calculateYlm 2 (- 1) (Num theta) (Num phi) = - calculateYlm 2 1 (Num theta) (Num phi)"
  by (simp only: ylm_2_1 ylm_2_neg1 Num_uminus minus_minus)

theorem ylm_2_1_not_equal:
  "calculateYlm 2 1 (Num (pi / 3)) (Num 0) \<noteq> calculateYlm 2 (- 1) (Num (pi / 3)) (Num 0)"
proof -
  let ?v = "sqrt (5 / (24 * pi)) *
    (3 * cos (pi / 3) * sqrt ((1 - cos (pi / 3)) * (1 + cos (pi / 3)))) * cos 0"
  have "0 < sqrt (5 / (24 * pi))" by simp
  moreover have "0 < 3 * cos (pi / 3) * sqrt ((1 - cos (pi / 3)) * (1 + cos (pi / 3)))"
    by (simp add: cos_60)
  ultimately have "0 < ?v" by simp
  then have "- ?v \<noteq> ?v" by linarith
  then have "Num (- ?v) \<noteq> Num ?v" by (simp only: number.inject not_False_eq_True)
  then show ?thesis by (simp only: ylm_2_1 ylm_2_neg1 not_False_eq_True)
qed

text \<open>
  C6, as the code has it. For every degree \<open>l \<ge> 0\<close>, every order \<open>m\<close> with \<open>\<bar>m\<bar> > l\<close>
  and all real \<open>theta\<close>, \<open>phi\<close>: when the stack has room for the \<open>l + \<bar>m\<bar>\<close> frames of
  \<open>factorial (l + \<bar>m\<bar>)\<close>, \<open>calculateYlm l m theta phi\<close> raises nothing and returns the number
  \<open>0\<close>, and \<open>factorial\<close> at the negative argument \<open>l - \<bar>m\<bar>\<close> returns \<open>1\<close> through its base
  case. Without that room the claim fails: with \<open>10000\<close> frames, the call at degree \<open>1\<close> and
  order \<open>-20000\<close> raises \<^verbatim>\<open>RangeError\<close>, since \<open>factorial 20001\<close> is evaluated before the
  range of the order is looked at.
\<close>

theorem ylm_stack_out_of_range:
  "0 \<le> l \<Longrightarrow> l < \<bar>m\<bar> \<Longrightarrow> 0 < d \<Longrightarrow> l + \<bar>m\<bar> \<le> int d \<Longrightarrow>
   calculateYlm_stack d l m (Num theta) (Num phi) = Inr (Num 0)
   \<and> factorial_stack d (l - \<bar>m\<bar>) = Inr 1"
proof -
  assume l: "0 \<le> l" and m: "l < \<bar>m\<bar>" and d: "0 < d" and le: "l + \<bar>m\<bar> \<le> int d"
  have "calculateYlm_stack d l m (Num theta) (Num phi) = Inr (Num 0)"
    by (simp only: ylm_stack_value [OF d le] ylm_value_out_of_range [OF l m])
  moreover obtain d' where "d = Suc d'" using d by (cases d) simp_all
  then have "factorial_stack d (l - \<bar>m\<bar>) = Inr 1" using m by simp
  ultimately show ?thesis by simp
qed

theorem ylm_stack_out_of_range_witness:
  "calculateYlm_stack 100 1 (- 2) (Num 0) (Num 0) = Inr (Num 0)
   \<and> factorial_stack 100 (1 - \<bar>- 2\<bar>) = Inr 1"
  using ylm_stack_out_of_range [of 1 "- 2" 100 0 0] by simp

theorem ylm_stack_overflow_example:
  "calculateYlm_stack 10000 1 (- 20000) (Num 0) (Num 0) = Inl RangeError"
  by (rule ylm_stack_raises) simp

text \<open>
  C10. For every degree \<open>l \<ge> 0\<close>, every order \<open>m\<close> with \<open>0 \<le> m \<le> l\<close> and all real
  \<open>theta\<close>, \<open>phi\<close>: \<open>calculateYlm l (-m) theta phi = (-1) ^ m \<cdot> calculateYlm l m theta phi\<close>.
  Negating the order changes the sign factor only.
\<close>

theorem ylm_negated_order:
  "0 \<le> l \<Longrightarrow> 0 \<le> m \<Longrightarrow> m \<le> l \<Longrightarrow>
   calculateYlm l (- m) (Num theta) (Num phi) =
   Num ((- 1) ^ nat m) * calculateYlm l m (Num theta) (Num phi)"
proof -
  assume m: "0 \<le> m"
  have s: "real_of_int (if - m < 0 then (if \<bar>m\<bar> mod 2 = 0 then 1 else - 1) else 1) = (- 1) ^ nat m"
  proof (cases "m = 0")
    case True
    then show ?thesis by simp
  next
    case False
    have "even (nat m) \<longleftrightarrow> even m" using m by (rule even_nat_iff)
    also have "\<dots> \<longleftrightarrow> m mod 2 = 0" by (rule even_iff_mod_2_eq_zero)
    finally have e: "m mod 2 = 0 \<longleftrightarrow> even (nat m)" by simp
    have "- m < 0" using m False by simp
    moreover have "\<bar>m\<bar> = m" using m by simp
    ultimately show ?thesis by (simp add: e)
  qed
  have c: "Math_cos (I (- m) * Num phi) = Num (cos (real_of_int m * phi))" by simp
  have c': "Math_cos (I m * Num phi) = Num (cos (real_of_int m * phi))" by simp
  have a: "\<bar>- m\<bar> = \<bar>m\<bar>" by simp
  have r: "(if m < 0 then (if \<bar>m\<bar> mod 2 = 0 then 1 else - 1) else 1) = (1::int)"
    using m by simp
  show ?thesis
    unfolding calculateYlm_def Let_def c c' a r
    by (subst mult_sign_number) (simp only: s)
qed

theorem ylm_negated_order_witness:
  "calculateYlm 2 (- 1) (Num 0) (Num 0) = Num (- 1) * calculateYlm 2 1 (Num 0) (Num 0)
   \<and> calculateYlm 2 (- 2) (Num 0) (Num 0) = Num 1 * calculateYlm 2 2 (Num 0) (Num 0)"
  using ylm_negated_order [of 2 1 0 0] ylm_negated_order [of 2 2 0 0] by simp

section \<open>Properties of the colour mapping\<close>

text \<open>
  C8. \<open>valueToColor (-1)\<close> is the triple of hue \<open>0.8\<close>, saturation \<open>0.8\<close> and lightness
  \<open>0.3\<close>; \<open>valueToColor 1\<close> is the triple of hue \<open>0.1\<close>, saturation \<open>0.8\<close> and lightness
  \<open>0.7\<close>; the saturation is \<open>0.8\<close> for every real input.
\<close>

theorem valueToColor_extremes:
  "valueToColor (Num (- 1)) = \<lparr>hue = Num 0.8, saturation = Num 0.8, lightness = Num 0.3\<rparr>
   \<and> valueToColor (Num 1) = \<lparr>hue = Num 0.1, saturation = Num 0.8, lightness = Num 0.7\<rparr>
   \<and> saturation (valueToColor (Num v)) = Num 0.8"
  by (simp add: valueToColor_def Let_def)

text \<open>
  C9. \<open>valueToColor\<close> clamps its input to \<open>[-1, 1]\<close>: for every real \<open>v \<ge> 1\<close> it returns
  what it returns at \<open>1\<close>, and for every real \<open>v \<le> -1\<close> what it returns at \<open>-1\<close>; so at
  \<open>5\<close> and \<open>-5\<close>.
\<close>

theorem valueToColor_clamps:
  "(1 \<le> v \<longrightarrow> valueToColor (Num v) = valueToColor (Num 1))
   \<and> (v \<le> - 1 \<longrightarrow> valueToColor (Num v) = valueToColor (Num (- 1)))"
  by (simp add: valueToColor_def Let_def min_def max_def)

theorem valueToColor_clamps_witness:
  "valueToColor (Num 5) = valueToColor (Num 1)
   \<and> valueToColor (Num (- 5)) = valueToColor (Num (- 1))"
  using valueToColor_clamps [of 5] valueToColor_clamps [of "- 5"] by simp

end
